theory Spec2Isabelle
  imports Main
begin

section \<open>Agricultural grant research pipeline\<close>

text \<open>
  A shallow embedding of \<^verbatim>\<open>lib/deep-research/grant-research.ts\<close> (template variant)
  and of the asynchronous task of \<^verbatim>\<open>POST /api/research/grants\<close>.

  The language model (\<^verbatim>\<open>generateObject\<close>) and the search service
  (\<^verbatim>\<open>firecrawl.search\<close>) are external: each call is an oracle that either throws
  (\<open>Inl\<close>) or answers (\<open>Inr\<close>). What a function does besides returning a value
  (progress notifications, console output, calls of the external services) is
  recorded, in order, in a list of events returned with the value.
\<close>

subsection \<open>Data\<close>

text \<open>A thrown value, kept as the text its interpolation \<^verbatim>\<open>${e}\<close> produces.\<close>

datatype error = Thrown string

fun render :: "error \<Rightarrow> string" where
  "render (Thrown s) = s"

record GrantInfo =
  name :: string
  description :: string
  eligibilityRequirements :: "string list"
  applicationProcess :: "string list"
  deadlines :: "string list"
  fundingAmount :: string
  contactInformation :: string
  applicationUrl :: string

record GrantResearchResult =
  grants :: "GrantInfo list"
  visitedUrls :: "string list"

text \<open>One proposed query of the model's answer in \<^verbatim>\<open>generateGrantQueries\<close>.\<close>

record SerpQuery =
  query :: string
  targetGoal :: string

text \<open>
  One page of a \<^verbatim>\<open>SearchResponse\<close>: the two fields the code reads, both optional
  in the client library's type.
\<close>

record SearchItem =
  markdown :: "string option"
  url :: "string option"

text \<open>The generated application template of \<^verbatim>\<open>generateGrantTemplate\<close>.\<close>

record GrantTemplate =
  applicationTemplate :: string
  additionalTips :: "string list"

datatype stage = QueryGeneration | GrantExtraction | TemplateGeneration | ReportSynthesis

datatype event =
    Progress string
  | ConsoleError string error
  | FirecrawlSearch string
  | GenerateObject stage

subsection \<open>JavaScript library functions\<close>

definition nl :: string where
  "nl = [CHR 0x0A]"

definition dq :: string where
  "dq = [CHR 0x22]"

text \<open>
  A number inside a template literal.  A count of elements of an array is
  below 2 to the power 32 and prints as its decimal digits.
\<close>

definition digit :: "nat \<Rightarrow> char" where
  "digit d = ''0123456789'' ! d"

function show_nat :: "nat \<Rightarrow> string" where
  "show_nat n = (if n < 10 then [digit n] else show_nat (n div 10) @ [digit (n mod 10)])"
  by pat_completeness auto
termination
  by (relation "measure id") auto

declare show_nat.simps [simp del]

text \<open>
  An integer prints as its decimal digits when its magnitude is below
  10 to the power 21; from there on JavaScript prints exponent notation, which is
  not modelled: that text is a parameter.
\<close>

definition show_int :: "(int \<Rightarrow> string) \<Rightarrow> int \<Rightarrow> string" where
  "show_int exponent i =
     (if 10 ^ 21 \<le> \<bar>i\<bar> then exponent i
      else if i < 0 then ''-'' @ show_nat (nat (- i))
      else show_nat (nat i))"

text \<open>Reading a decimal numeral, to say what number a text shows.\<close>

definition read_nat :: "string \<Rightarrow> nat" where
  "read_nat s = foldl (\<lambda>a c. 10 * a + (of_char c - 48)) 0 s"

text \<open>\<^verbatim>\<open>Array.prototype.join\<close>.\<close>

fun join :: "string \<Rightarrow> string list \<Rightarrow> string" where
  "join sep [] = []"
| "join sep [x] = x"
| "join sep (x # y # ys) = x @ sep @ join sep (y # ys)"

text \<open>
  \<^verbatim>\<open>Array.prototype.slice(start, end)\<close> on integer arguments: a negative index
  counts from the end of the array, and both indices are clamped to the array.
\<close>

definition slice :: "int \<Rightarrow> int \<Rightarrow> 'a list \<Rightarrow> 'a list" where
  "slice start end xs =
     (let len = int (length xs);
          k = (if start < 0 then max (len + start) 0 else min start len);
          final = (if end < 0 then max (len + end) 0 else min end len)
      in take (nat (final - k)) (drop (nat k) xs))"

text \<open>
  lodash \<^verbatim>\<open>compact\<close> on an array of optional strings: the falsy values, that is
  \<^verbatim>\<open>undefined\<close> and the empty string, are removed.
\<close>

fun compact :: "string option list \<Rightarrow> string list" where
  "compact [] = []"
| "compact (None # xs) = compact xs"
| "compact (Some s # xs) = (if s = [] then compact xs else s # compact xs)"

text \<open>\<^verbatim>\<open>.filter(url => url != null)\<close> on an array of optional strings.\<close>

fun non_null :: "'a option list \<Rightarrow> 'a list" where
  "non_null [] = []"
| "non_null (None # xs) = non_null xs"
| "non_null (Some x # xs) = x # non_null xs"

text \<open>
  A JavaScript \<^verbatim>\<open>Map\<close> keeps its entries in insertion order.  \<^verbatim>\<open>set\<close> on a
  key that is present replaces the value and leaves the entry where it is; on a
  new key it appends an entry.  \<^verbatim>\<open>new Map(entries)\<close> sets the entries one after
  the other.
\<close>

fun map_set :: "('k \<times> 'v) list \<Rightarrow> 'k \<Rightarrow> 'v \<Rightarrow> ('k \<times> 'v) list" where
  "map_set [] k v = [(k, v)]"
| "map_set ((k', v') # m) k v =
     (if k' = k then (k', v) # m else (k', v') # map_set m k v)"

definition new_Map :: "('k \<times> 'v) list \<Rightarrow> ('k \<times> 'v) list" where
  "new_Map entries = foldl (\<lambda>m (k, v). map_set m k v) [] entries"

definition map_values :: "('k \<times> 'v) list \<Rightarrow> 'v list" where
  "map_values m = map snd m"

text \<open>A JavaScript \<^verbatim>\<open>Set\<close>, in insertion order; \<^verbatim>\<open>add\<close> ignores a member.\<close>

definition set_add :: "'a list \<Rightarrow> 'a \<Rightarrow> 'a list" where
  "set_add s x = (if x \<in> set s then s else s @ [x])"

definition new_Set :: "'a list \<Rightarrow> 'a list" where
  "new_Set xs = foldl set_add [] xs"

subsection \<open>Progress messages\<close>

definition generating :: "(int \<Rightarrow> string) \<Rightarrow> int \<Rightarrow> string \<Rightarrow> string" where
  "generating exponent count q =
     ''Generating up to '' @ show_int exponent count @ '' grant-related SERP queries'' @ nl @ q"

definition created :: "nat \<Rightarrow> string \<Rightarrow> string" where
  "created count queries =
     ''Created '' @ show_nat count @ '' grant-related SERP queries'' @ nl @ queries"

definition researching :: "string \<Rightarrow> string" where
  "researching q = ''Researching agricultural grants'' @ nl @ q"

definition found :: "nat \<Rightarrow> string \<Rightarrow> string" where
  "found count q =
     ''Found '' @ show_nat count @ '' potential grant resources'' @ nl @ q"

definition ran :: "string \<Rightarrow> nat \<Rightarrow> string" where
  "ran q count =
     ''Ran '' @ dq @ q @ dq @ nl @ show_nat count @ '' content items found''"

definition generated :: "nat \<Rightarrow> string" where
  "generated count = ''Found '' @ show_nat count @ '' relevant agricultural grants''"

text \<open>The optional callback: nothing is emitted when the caller passed none.\<close>

definition emit :: "bool \<Rightarrow> string \<Rightarrow> event list" where
  "emit onProgress update = (if onProgress then [Progress update] else [])"

subsection \<open>The external services\<close>

text \<open>
  The outcome of every external call of one request.  A prompt is determined
  by the values interpolated into it, so an oracle of the model takes those
  values; the oracles used inside the loop over the queries also take the
  number of the iteration, since the same query may be answered differently
  when it is asked again.  \<open>rejectedFirst\<close> says which of the rejected
  promises of a \<^verbatim>\<open>Promise.all\<close> was rejected first in time, and
  \<open>exponentText\<close> is the text of a number in exponent notation.
\<close>

record services =
  queriesModel :: "string \<Rightarrow> string option \<Rightarrow> string option \<Rightarrow> int \<Rightarrow> error + SerpQuery list"
  search :: "nat \<Rightarrow> string \<Rightarrow> error + SearchItem list"
  extractModel :: "nat \<Rightarrow> string list \<Rightarrow> error + GrantInfo list"
  templateModel :: "GrantInfo \<Rightarrow> string \<Rightarrow> error + GrantTemplate"
  reportModel :: "string \<Rightarrow> string \<Rightarrow> string \<Rightarrow> error + string"
  trimPrompt :: "string \<Rightarrow> nat \<Rightarrow> string"
  rejectedFirst :: nat
  exponentText :: "int \<Rightarrow> string"

text \<open>
  \<open>trimPrompt\<close> is imported from \<^verbatim>\<open>./ai/providers\<close>, which is not among the
  sources; it is a parameter here.
\<close>

subsection \<open>Query generation\<close>

text \<open>
  \<^verbatim>\<open>numQueries\<close> is a JavaScript number that the route takes from the request
  body as it is; the model takes the integers.  \<^verbatim>\<open>console.log\<close> output is not
  modelled, \<^verbatim>\<open>console.error\<close> is.
\<close>

definition generateGrantQueries ::
  "services \<Rightarrow> string \<Rightarrow> string option \<Rightarrow> string option \<Rightarrow> int \<Rightarrow> bool
     \<Rightarrow> event list \<times> (error + string list)" where
  "generateGrantQueries sv farmQuery farmType location numQueries onProgress =
     (let ev = emit onProgress (generating (exponentText sv) numQueries farmQuery)
                 @ [GenerateObject QueryGeneration]
      in case queriesModel sv farmQuery farmType location numQueries of
           Inl e \<Rightarrow> (ev, Inl e)
         | Inr queries \<Rightarrow>
             (let queriesList = join '', '' (map query queries)
              in (ev @ emit onProgress (created (length queries) queriesList),
                  Inr (map query (slice 0 numQueries queries)))))"

subsection \<open>Grant extraction\<close>

definition processGrantResults ::
  "(string \<Rightarrow> nat \<Rightarrow> string) \<Rightarrow> (string list \<Rightarrow> error + GrantInfo list) \<Rightarrow> bool \<Rightarrow> string
     \<Rightarrow> SearchItem list \<Rightarrow> event list \<times> (error + GrantResearchResult)" where
  "processGrantResults trim model onProgress serpQuery data =
     (let contents = map (\<lambda>content. trim content 25000) (compact (map markdown data));
          ev = emit onProgress (ran serpQuery (length contents))
      in if length contents = 0 then (ev, Inr \<lparr>grants = [], visitedUrls = []\<rparr>)
         else case model contents of
                Inl e \<Rightarrow> (ev @ [GenerateObject GrantExtraction], Inl e)
              | Inr gs \<Rightarrow>
                  (ev @ [GenerateObject GrantExtraction] @ emit onProgress (generated (length gs)),
                   Inr \<lparr>grants = gs, visitedUrls = non_null (map url data)\<rparr>))"

subsection \<open>The research loop and the aggregation\<close>

text \<open>
  The body of the \<^verbatim>\<open>try\<close> block of one iteration: the events it causes, and
  either the thrown error or the grants and URLs it appends to
  \<^verbatim>\<open>allGrants\<close> and \<^verbatim>\<open>allVisitedUrls\<close>.
\<close>

definition query_attempt ::
  "services \<Rightarrow> bool \<Rightarrow> nat \<Rightarrow> string \<Rightarrow> event list \<times> (error + GrantInfo list \<times> string list)" where
  "query_attempt sv onProgress i serpQuery =
     (let ev = emit onProgress (researching serpQuery) @ [FirecrawlSearch serpQuery]
      in case search sv i serpQuery of
           Inl e \<Rightarrow> (ev, Inl e)
         | Inr data \<Rightarrow>
             (let ev2 = ev @ emit onProgress (found (length data) serpQuery)
              in if length data > 0
                 then (case processGrantResults (trimPrompt sv) (extractModel sv i) onProgress serpQuery data of
                         (ev3, Inl e) \<Rightarrow> (ev2 @ ev3, Inl e)
                       | (ev3, Inr r) \<Rightarrow> (ev2 @ ev3, Inr (grants r, visitedUrls r)))
                 else (ev2, Inr ([], []))))"

definition query_failed :: "string \<Rightarrow> error \<Rightarrow> string" where
  "query_failed serpQuery e =
     ''Error researching grants with '' @ dq @ serpQuery @ dq @ '': '' @ render e"

definition query_error_log :: "string \<Rightarrow> string" where
  "query_error_log serpQuery = ''Error running grant query: '' @ serpQuery @ '': ''"

text \<open>One iteration, with its \<^verbatim>\<open>catch\<close> block.\<close>

definition query_step ::
  "services \<Rightarrow> bool \<Rightarrow> nat \<Rightarrow> string \<Rightarrow> event list \<times> GrantInfo list \<times> string list
     \<Rightarrow> event list \<times> GrantInfo list \<times> string list" where
  "query_step sv onProgress i serpQuery st =
     (case st of (ev, allGrants, allVisitedUrls) \<Rightarrow>
        (case query_attempt sv onProgress i serpQuery of
           (ev', Inr (gs, us)) \<Rightarrow> (ev @ ev', allGrants @ gs, allVisitedUrls @ us)
         | (ev', Inl e) \<Rightarrow>
             (ev @ ev' @ [ConsoleError (query_error_log serpQuery) e]
                 @ emit onProgress (query_failed serpQuery e),
              allGrants, allVisitedUrls)))"

fun query_loop ::
  "services \<Rightarrow> bool \<Rightarrow> nat \<Rightarrow> string list \<Rightarrow> event list \<times> GrantInfo list \<times> string list
     \<Rightarrow> event list \<times> GrantInfo list \<times> string list" where
  "query_loop sv onProgress i [] st = st"
| "query_loop sv onProgress i (serpQuery # rest) st =
     query_loop sv onProgress (Suc i) rest (query_step sv onProgress i serpQuery st)"

text \<open>\<^verbatim>\<open>Array.from(new Map(allGrants.map(grant => [grant.name, grant])).values())\<close>\<close>

definition uniqueGrants :: "GrantInfo list \<Rightarrow> GrantInfo list" where
  "uniqueGrants allGrants = map_values (new_Map (map (\<lambda>grant. (name grant, grant)) allGrants))"

definition researchAgricultureGrants ::
  "services \<Rightarrow> string \<Rightarrow> string option \<Rightarrow> string option \<Rightarrow> int \<Rightarrow> bool
     \<Rightarrow> event list \<times> (error + GrantResearchResult)" where
  "researchAgricultureGrants sv farmQuery farmType location numQueries onProgress =
     (case generateGrantQueries sv farmQuery farmType location numQueries onProgress of
        (ev, Inl e) \<Rightarrow> (ev, Inl e)
      | (ev, Inr serpQueries) \<Rightarrow>
          (case query_loop sv onProgress 0 serpQueries (ev, [], []) of
             (ev', allGrants, allVisitedUrls) \<Rightarrow>
               (ev', Inr \<lparr>grants = uniqueGrants allGrants,
                          visitedUrls = new_Set allVisitedUrls\<rparr>)))"

subsection \<open>Report synthesis\<close>

text \<open>
  \<^verbatim>\<open>cond ? text : ''\<close> on an optional string: \<^verbatim>\<open>undefined\<close> and the empty string
  are falsy.
\<close>

definition labelled :: "string \<Rightarrow> string option \<Rightarrow> string" where
  "labelled label v = (case v of None \<Rightarrow> [] | Some t \<Rightarrow> if t = [] then [] else label @ t)"

definition farmDetails :: "string \<Rightarrow> string option \<Rightarrow> string option \<Rightarrow> string" where
  "farmDetails farmQuery farmType location =
     farmQuery @ nl @ labelled ''Farm/Ranch Type: '' farmType @ nl @ labelled ''Location: '' location"

definition bullets :: "string list \<Rightarrow> string" where
  "bullets xs = join nl (map (\<lambda>x. ''- '' @ x) xs)"

definition numbered :: "string list \<Rightarrow> string" where
  "numbered xs = join nl (map (\<lambda>(i, step). show_nat (i + 1) @ ''. '' @ step) (enumerate 0 xs))"

definition grant_section :: "GrantInfo \<Rightarrow> string" where
  "grant_section grant =
     nl @ ''## '' @ name grant @ nl @ nl @
     description grant @ nl @ nl @
     ''**Eligibility Requirements:**'' @ nl @ bullets (eligibilityRequirements grant) @ nl @ nl @
     ''**Application Process:**'' @ nl @ numbered (applicationProcess grant) @ nl @ nl @
     ''**Deadlines:**'' @ nl @ bullets (deadlines grant) @ nl @ nl @
     ''**Funding Amount:** '' @ fundingAmount grant @ nl @ nl @
     ''**Contact Information:** '' @ contactInformation grant @ nl @ nl @
     ''**Application URL:** [Apply Here]('' @ applicationUrl grant @ '')'' @ nl @ nl @
     ''---''"

definition grantsString :: "GrantInfo list \<Rightarrow> string" where
  "grantsString gs = join nl (map grant_section gs)"

definition generateGrantTemplate :: "services \<Rightarrow> GrantInfo \<Rightarrow> string \<Rightarrow> error + GrantTemplate" where
  "generateGrantTemplate sv grantInfo details = templateModel sv grantInfo details"

text \<open>
  \<^verbatim>\<open>Promise.all\<close>: the array of the results when every promise is fulfilled;
  otherwise the rejection of the promise that was rejected first in time,
  which is the one at index \<open>first\<close> (modulo their number) among the rejected.
\<close>

fun rejections :: "(error + 'a) list \<Rightarrow> error list" where
  "rejections [] = []"
| "rejections (Inl e # ps) = e # rejections ps"
| "rejections (Inr x # ps) = rejections ps"

fun fulfilments :: "(error + 'a) list \<Rightarrow> 'a list" where
  "fulfilments [] = []"
| "fulfilments (Inl e # ps) = fulfilments ps"
| "fulfilments (Inr x # ps) = x # fulfilments ps"

definition promise_all :: "nat \<Rightarrow> (error + 'a) list \<Rightarrow> error + 'a list" where
  "promise_all first ps =
     (case rejections ps of
        [] \<Rightarrow> Inr (fulfilments ps)
      | e # es \<Rightarrow> Inl ((e # es) ! (first mod length (e # es))))"

definition template_section :: "string \<times> GrantTemplate \<Rightarrow> string" where
  "template_section t =
     nl @ ''# Application Template for '' @ fst t @ nl @ nl @
     applicationTemplate (snd t) @ nl @ nl @
     ''## Application Tips'' @ nl @ nl @
     bullets (additionalTips (snd t)) @ nl @ nl @
     ''---''"

definition urlsSection :: "string list \<Rightarrow> string" where
  "urlsSection urls = nl @ nl @ ''## Sources'' @ nl @ nl @ join nl (map (\<lambda>u. ''- '' @ u) urls)"

definition writeGrantReport ::
  "services \<Rightarrow> string \<Rightarrow> string option \<Rightarrow> string option \<Rightarrow> GrantInfo list \<Rightarrow> string list
     \<Rightarrow> event list \<times> (error + string)" where
  "writeGrantReport sv farmQuery farmType location gs urls =
     (let details = farmDetails farmQuery farmType location;
          top = slice 0 3 gs;
          ev = map (\<lambda>grant. GenerateObject TemplateGeneration) top
      in case promise_all (rejectedFirst sv)
                (map (\<lambda>grant. map_sum id (\<lambda>t. (name grant, t)) (generateGrantTemplate sv grant details)) top) of
           Inl e \<Rightarrow> (ev, Inl e)
         | Inr templates \<Rightarrow>
             (let templatesString = join nl (map template_section templates)
              in case reportModel sv details (grantsString gs) templatesString of
                   Inl e \<Rightarrow> (ev @ [GenerateObject ReportSynthesis], Inl e)
                 | Inr reportMarkdown \<Rightarrow>
                     (ev @ [GenerateObject ReportSynthesis],
                      Inr (''# Agricultural Grant Opportunities Report'' @ nl @ nl
                             @ reportMarkdown @ urlsSection urls))))"

subsection \<open>The asynchronous task of the route\<close>

text \<open>
  One server-sent event, before it is serialised as \<^verbatim>\<open>data: <json>\n\n\<close>.
\<close>

datatype frame = ProgressFrame string | DoneFrame string | ErrorFrame string

text \<open>
  The state of one task: the chunks the stream writer accepted, whether the
  writer is closed, how often \<^verbatim>\<open>writer.close()\<close> was called, how often
  \<^verbatim>\<open>writeGrantReport\<close> was called, and what went to the console and to the
  external services.
\<close>

record task =
  chunks :: "frame list"
  closed :: bool
  closeCalls :: nat
  reportCalls :: nat
  journal :: "event list"

definition new_task :: task where
  "new_task = \<lparr>chunks = [], closed = False, closeCalls = 0, reportCalls = 0, journal = []\<rparr>"

text \<open>
  A writer that is closed rejects \<^verbatim>\<open>write\<close> and \<^verbatim>\<open>close\<close> with a
  \<^verbatim>\<open>TypeError\<close> (the text is the runtime's, here that of Node 22).
\<close>

definition writer_closed :: error where
  "writer_closed =
     Thrown ''TypeError [ERR_INVALID_STATE]: Invalid state: WritableStream is closed''"

definition writer_write :: "frame \<Rightarrow> task \<Rightarrow> task \<times> error option" where
  "writer_write f t =
     (if closed t then (t, Some writer_closed) else (t\<lparr>chunks := chunks t @ [f]\<rparr>, None))"

definition writer_close :: "task \<Rightarrow> task \<times> error option" where
  "writer_close t =
     (t\<lparr>closed := True, closeCalls := Suc (closeCalls t)\<rparr>,
      if closed t then Some writer_closed else None)"

text \<open>The route's \<^verbatim>\<open>onProgress\<close>: a failed write is logged and swallowed.\<close>

definition onProgress :: "string \<Rightarrow> task \<Rightarrow> task" where
  "onProgress update t =
     (case writer_write (ProgressFrame update) t of
        (t', None) \<Rightarrow> t'
      | (t', Some e) \<Rightarrow>
          t'\<lparr>journal := journal t' @ [ConsoleError ''[GRANT RESEARCH ROUTE] Error writing progress:'' e]\<rparr>)"

text \<open>
  What the events of a library call do to the task: a progress notification
  goes through \<open>onProgress\<close>, everything else is recorded.
\<close>

fun deliver :: "task \<Rightarrow> event \<Rightarrow> task" where
  "deliver t (Progress update) = onProgress update t"
| "deliver t ev = t\<lparr>journal := journal t @ [ev]\<rparr>"

definition no_grants_hint :: string where
  "no_grants_hint =
     ''No grants found. Try refining your search or providing more details about your farm/ranch.''"

definition no_grants_report :: string where
  "no_grants_report = ''No grants found that match your criteria.''"

definition generating_report :: "nat \<Rightarrow> string" where
  "generating_report count =
     ''Generating comprehensive report for '' @ show_nat count @ '' grants...''"

text \<open>The \<^verbatim>\<open>try\<close> block; \<open>Inl\<close> is a throw, \<open>Inr\<close> a normal end or the \<^verbatim>\<open>return\<close>.\<close>

definition pipeline_try ::
  "services \<Rightarrow> string \<Rightarrow> string option \<Rightarrow> string option \<Rightarrow> int \<Rightarrow> task \<Rightarrow> task \<times> (error + unit)" where
  "pipeline_try sv farmQuery farmType location numQueries t0 =
     (case researchAgricultureGrants sv farmQuery farmType location numQueries True of
        (ev, Inl e) \<Rightarrow> (foldl deliver t0 ev, Inl e)
      | (ev, Inr grantResearchResult) \<Rightarrow>
          (let t1 = foldl deliver t0 ev
           in if length (grants grantResearchResult) = 0
              then (case writer_write (DoneFrame no_grants_report) (onProgress no_grants_hint t1) of
                      (t2, Some e) \<Rightarrow> (t2, Inl e)
                    | (t2, None) \<Rightarrow>
                        (case writer_close t2 of
                           (t3, Some e) \<Rightarrow> (t3, Inl e)
                         | (t3, None) \<Rightarrow> (t3, Inr ())))
              else (let t2 = onProgress (generating_report (length (grants grantResearchResult))) t1;
                        t3 = t2\<lparr>reportCalls := Suc (reportCalls t2)\<rparr>
                    in case writeGrantReport sv farmQuery farmType location
                              (grants grantResearchResult) (visitedUrls grantResearchResult) of
                         (ev2, Inl e) \<Rightarrow> (foldl deliver t3 ev2, Inl e)
                       | (ev2, Inr finalReport) \<Rightarrow>
                           (case writer_write (DoneFrame finalReport) (foldl deliver t3 ev2) of
                              (t4, Some e) \<Rightarrow> (t4, Inl e)
                            | (t4, None) \<Rightarrow> (t4, Inr ())))))"

text \<open>The \<^verbatim>\<open>catch\<close> block.\<close>

definition pipeline_catch :: "error \<Rightarrow> task \<Rightarrow> task \<times> error option" where
  "pipeline_catch e t =
     writer_write (ErrorFrame (''Error in grant research: '' @ render e))
       (t\<lparr>journal := journal t @ [ConsoleError ''[GRANT RESEARCH ROUTE] Error in research process:'' e]\<rparr>)"

text \<open>
  The whole task, with its \<^verbatim>\<open>finally\<close> block: the final state and, when the
  task's promise is rejected, the error.  An error thrown in the
  \<^verbatim>\<open>finally\<close> block replaces the one of the \<^verbatim>\<open>catch\<close> block.
\<close>

definition pipeline_task ::
  "services \<Rightarrow> string \<Rightarrow> string option \<Rightarrow> string option \<Rightarrow> int \<Rightarrow> task \<times> error option" where
  "pipeline_task sv farmQuery farmType location numQueries =
     (case pipeline_try sv farmQuery farmType location numQueries new_task of
        (t, r) \<Rightarrow>
          (case (case r of Inr u \<Rightarrow> (t, None) | Inl e \<Rightarrow> pipeline_catch e t) of
             (t', pending) \<Rightarrow>
               (case writer_close t' of
                  (t'', Some e) \<Rightarrow> (t'', Some e)
                | (t'', None) \<Rightarrow> (t'', pending))))"

subsection \<open>What the loop collects\<close>

text \<open>
  The attempts of the loop, one for each query in order, and what each of them
  appends to \<^verbatim>\<open>allGrants\<close> and \<^verbatim>\<open>allVisitedUrls\<close>: nothing when it threw.
\<close>

fun attempts ::
  "services \<Rightarrow> bool \<Rightarrow> nat \<Rightarrow> string list
     \<Rightarrow> (event list \<times> (error + GrantInfo list \<times> string list)) list" where
  "attempts sv notify i [] = []"
| "attempts sv notify i (serpQuery # rest) =
     query_attempt sv notify i serpQuery # attempts sv notify (Suc i) rest"

definition pushed ::
  "event list \<times> (error + GrantInfo list \<times> string list) \<Rightarrow> GrantInfo list \<times> string list" where
  "pushed a = (case snd a of Inl e \<Rightarrow> ([], []) | Inr p \<Rightarrow> p)"

definition succeeded :: "event list \<times> (error + 'a) \<Rightarrow> bool" where
  "succeeded a = (case snd a of Inl e \<Rightarrow> False | Inr p \<Rightarrow> True)"

definition step_events :: "services \<Rightarrow> bool \<Rightarrow> nat \<Rightarrow> string \<Rightarrow> event list" where
  "step_events sv notify i serpQuery =
     (case query_attempt sv notify i serpQuery of
        (ev, Inr p) \<Rightarrow> ev
      | (ev, Inl e) \<Rightarrow>
          ev @ [ConsoleError (query_error_log serpQuery) e] @ emit notify (query_failed serpQuery e))"

fun loop_events :: "services \<Rightarrow> bool \<Rightarrow> nat \<Rightarrow> string list \<Rightarrow> event list" where
  "loop_events sv notify i [] = []"
| "loop_events sv notify i (serpQuery # rest) =
     step_events sv notify i serpQuery @ loop_events sv notify (Suc i) rest"

definition encountered :: "services \<Rightarrow> bool \<Rightarrow> string list \<Rightarrow> GrantInfo list" where
  "encountered sv notify serpQueries =
     concat (map (\<lambda>a. fst (pushed a)) (attempts sv notify 0 serpQueries))"

definition visited :: "services \<Rightarrow> bool \<Rightarrow> string list \<Rightarrow> string list" where
  "visited sv notify serpQueries =
     concat (map (\<lambda>a. snd (pushed a)) (attempts sv notify 0 serpQueries))"

text \<open>
  The frames that the progress notifications of a list of events become, and
  the events that are recorded in the journal.
\<close>

definition progress_frames :: "event list \<Rightarrow> frame list" where
  "progress_frames ev =
     concat (map (\<lambda>e. case e of Progress u \<Rightarrow> [ProgressFrame u] | _ \<Rightarrow> []) ev)"

definition recorded :: "event list \<Rightarrow> event list" where
  "recorded ev = filter (\<lambda>e. case e of Progress u \<Rightarrow> False | _ \<Rightarrow> True) ev"

subsection \<open>A sample request\<close>

text \<open>
  Three proposed queries; the search of the second one fails; the first and
  the third each find a page with text and a page without, and the model
  extracts a grant of the same name from both.
\<close>

definition sample_grant :: "string \<Rightarrow> string \<Rightarrow> GrantInfo" where
  "sample_grant n d =
     \<lparr>name = n, description = d, eligibilityRequirements = [''Not specified''],
      applicationProcess = [''Not specified''], deadlines = [''Not specified''],
      fundingAmount = ''Not specified'', contactInformation = ''Not specified'',
      applicationUrl = ''Not specified''\<rparr>"

definition sample_pages :: "SearchItem list" where
  "sample_pages =
     [\<lparr>markdown = Some ''page'', url = Some ''https://a.example''\<rparr>,
      \<lparr>markdown = None, url = Some ''https://b.example''\<rparr>]"

definition sample_services :: services where
  "sample_services =
     \<lparr>queriesModel = (\<lambda>q t l n.
         Inr [\<lparr>query = ''q0'', targetGoal = ''federal''\<rparr>,
              \<lparr>query = ''q1'', targetGoal = ''state''\<rparr>,
              \<lparr>query = ''q2'', targetGoal = ''rural''\<rparr>]),
      search = (\<lambda>i q. if i = 1 then Inl (Thrown ''Error: network'') else Inr sample_pages),
      extractModel = (\<lambda>i contents.
         if i = 0 then Inr [sample_grant ''VAPG'' ''first'']
         else Inr [sample_grant ''VAPG'' ''second'', sample_grant ''EQIP'' ''third'']),
      templateModel = (\<lambda>g d. Inr \<lparr>applicationTemplate = ''T'', additionalTips = [''tip'']\<rparr>),
      reportModel = (\<lambda>d g t. Inr ''REPORT''),
      trimPrompt = (\<lambda>content n. take n content),
      rejectedFirst = 0,
      exponentText = (\<lambda>i. ''1e+21'')\<rparr>"

text \<open>The same services when no page of any search has text.\<close>

definition barren_pages :: "SearchItem list" where
  "barren_pages =
     [\<lparr>markdown = None, url = Some ''https://b.example''\<rparr>,
      \<lparr>markdown = Some [], url = None\<rparr>]"

definition barren_services :: services where
  "barren_services = sample_services\<lparr>search := (\<lambda>i q. Inr barren_pages)\<rparr>"

text \<open>
  The same services when, besides the failing search of the second query, the
  extraction of the first query fails.
\<close>

definition failing_services :: services where
  "failing_services =
     sample_services\<lparr>extractModel := (\<lambda>i contents.
       if i = 0 then Inl (Thrown ''Error: timeout'')
       else Inr [sample_grant ''VAPG'' ''second'', sample_grant ''EQIP'' ''third''])\<rparr>"

subsection \<open>Insertion-ordered maps and sets, and the loop\<close>

lemma keys_map_set: "map fst (map_set m k v) = set_add (map fst m) k"
  by (induction m) (force simp: set_add_def split: if_splits)+

lemma map_of_map_set: "map_of (map_set m k v) = (map_of m)(k \<mapsto> v)"
  by (induction m) (auto simp: fun_eq_iff)

lemma set_map_set: "set (map_set m k v) \<subseteq> insert (k, v) (set m)"
  by (induction m) (auto split: if_splits)

lemma keys_fold_set:
  "map fst (foldl (\<lambda>m (k, v). map_set m k v) m kvs) = foldl set_add (map fst m) (map fst kvs)"
  by (induction kvs arbitrary: m) (auto simp: keys_map_set)

lemma map_of_fold_set:
  "map_of (foldl (\<lambda>m (k, v). map_set m k v) m kvs) = map_of m ++ map_of (rev kvs)"
  by (induction kvs arbitrary: m) (auto simp: map_of_map_set fun_eq_iff map_add_def split: option.splits)

lemma set_fold_set:
  "set (foldl (\<lambda>m (k, v). map_set m k v) m kvs) \<subseteq> set m \<union> set kvs"
proof (induction kvs arbitrary: m)
  case Nil
  then show ?case by simp
next
  case (Cons kv kvs)
  obtain k v where kv: "kv = (k, v)" by (cases kv)
  have "set (foldl (\<lambda>m (k, v). map_set m k v) (map_set m k v) kvs) \<subseteq> set (map_set m k v) \<union> set kvs"
    by (rule Cons.IH)
  with set_map_set [of m k v] show ?case unfolding kv by auto
qed

lemma distinct_set_add: "distinct s \<Longrightarrow> distinct (set_add s x)"
  by (simp add: set_add_def)

lemma set_set_add: "set (set_add s x) = insert x (set s)"
  by (auto simp: set_add_def)

lemma distinct_fold_add: "distinct s \<Longrightarrow> distinct (foldl set_add s xs)"
  by (induction xs arbitrary: s) (simp_all add: distinct_set_add)

lemma set_fold_add: "set (foldl set_add s xs) = set s \<union> set xs"
  by (induction xs arbitrary: s) (auto simp: set_set_add)

lemma distinct_new_Set: "distinct (new_Set xs)"
  by (simp add: new_Set_def distinct_fold_add)

lemma set_new_Set: "set (new_Set xs) = set xs"
  by (simp add: new_Set_def set_fold_add)

lemma keys_new_Map: "map fst (new_Map kvs) = new_Set (map fst kvs)"
  by (simp add: new_Map_def new_Set_def keys_fold_set)

lemma map_of_new_Map: "map_of (new_Map kvs) = map_of (rev kvs)"
  by (simp add: new_Map_def map_of_fold_set)

lemma set_new_Map: "set (new_Map kvs) \<subseteq> set kvs"
  using set_fold_set [of "[]" kvs] by (simp add: new_Map_def)

lemma filter_key_distinct:
  "distinct (map fst m) \<Longrightarrow>
     filter (\<lambda>kv. fst kv = n) m = (case map_of m n of None \<Rightarrow> [] | Some v \<Rightarrow> [(n, v)])"
proof (induction m)
  case Nil
  then show ?case by simp
next
  case (Cons kv m)
  obtain k v where kv: "kv = (k, v)" by (cases kv)
  show ?case
  proof (cases "k = n")
    case True
    with Cons.prems kv have "n \<notin> fst ` set m" by auto
    then have "filter (\<lambda>kv. fst kv = n) m = []"
      by (auto simp: filter_empty_conv)
    with True kv show ?thesis by simp
  next
    case False
    with Cons kv show ?thesis by simp
  qed
qed

lemma map_of_rev_named:
  "map_of (rev (map (\<lambda>g. (name g, g)) xs)) n =
     (if n \<in> name ` set xs then Some (last (filter (\<lambda>h. name h = n) xs)) else None)"
proof (induction xs rule: rev_induct)
  case Nil
  then show ?case by simp
next
  case (snoc x xs)
  then show ?case by (auto simp: map_add_def split: option.splits)
qed

lemma names_uniqueGrants: "map name (uniqueGrants xs) = new_Set (map name xs)"
proof -
  have inv: "\<forall>kv \<in> set (new_Map (map (\<lambda>g. (name g, g)) xs)). name (snd kv) = fst kv"
    using set_new_Map [of "map (\<lambda>g. (name g, g)) xs"] by auto
  have "map name (uniqueGrants xs) = map (\<lambda>kv. name (snd kv)) (new_Map (map (\<lambda>g. (name g, g)) xs))"
    by (simp add: uniqueGrants_def map_values_def)
  also have "\<dots> = map fst (new_Map (map (\<lambda>g. (name g, g)) xs))"
    using inv by (intro map_cong) auto
  also have "\<dots> = new_Set (map name xs)"
    by (simp add: keys_new_Map comp_def)
  finally show ?thesis .
qed

lemma filter_uniqueGrants:
  "filter (\<lambda>h. name h = n) (uniqueGrants xs) =
     (if n \<in> name ` set xs then [last (filter (\<lambda>h. name h = n) xs)] else [])"
proof -
  let ?m = "new_Map (map (\<lambda>g. (name g, g)) xs)"
  have inv: "\<forall>kv \<in> set ?m. name (snd kv) = fst kv"
    using set_new_Map [of "map (\<lambda>g. (name g, g)) xs"] by auto
  have d: "distinct (map fst ?m)"
    by (simp add: keys_new_Map distinct_new_Set)
  have "filter (\<lambda>h. name h = n) (uniqueGrants xs) = map snd (filter (\<lambda>kv. name (snd kv) = n) ?m)"
    by (simp add: uniqueGrants_def map_values_def filter_map comp_def)
  also have "filter (\<lambda>kv. name (snd kv) = n) ?m = filter (\<lambda>kv. fst kv = n) ?m"
    using inv by (intro filter_cong) auto
  also have "\<dots> = (case map_of ?m n of None \<Rightarrow> [] | Some v \<Rightarrow> [(n, v)])"
    by (rule filter_key_distinct [OF d])
  also have "map_of ?m n = (if n \<in> name ` set xs then Some (last (filter (\<lambda>h. name h = n) xs)) else None)"
    by (simp add: map_of_new_Map map_of_rev_named)
  finally show ?thesis by simp
qed


lemma length_attempts: "length (attempts sv p i qs) = length qs"
  by (induction qs arbitrary: i) simp_all

lemma attempts_nth: "j < length qs \<Longrightarrow> attempts sv p i qs ! j = query_attempt sv p (i + j) (qs ! j)"
proof (induction qs arbitrary: i j)
  case Nil
  then show ?case by simp
next
  case (Cons q qs)
  then show ?case by (cases j) simp_all
qed

lemma query_step_collects:
  "query_step sv p i q (ev, gs, us) =
     (ev @ step_events sv p i q,
      gs @ fst (pushed (query_attempt sv p i q)),
      us @ snd (pushed (query_attempt sv p i q)))"
  by (simp add: query_step_def step_events_def pushed_def split: prod.splits sum.splits)

lemma query_loop_collects:
  "query_loop sv p i qs (ev, gs, us) =
     (ev @ loop_events sv p i qs,
      gs @ concat (map (\<lambda>a. fst (pushed a)) (attempts sv p i qs)),
      us @ concat (map (\<lambda>a. snd (pushed a)) (attempts sv p i qs)))"
  by (induction qs arbitrary: i ev gs us) (simp_all add: query_step_collects)

lemma research_unfold:
  assumes "generateGrantQueries sv q ft loc n p = (ev0, Inr qs)"
  shows "researchAgricultureGrants sv q ft loc n p =
           (ev0 @ loop_events sv p 0 qs,
            Inr \<lparr>grants = uniqueGrants (encountered sv p qs),
                 visitedUrls = new_Set (visited sv p qs)\<rparr>)"
  using assms
  by (simp add: researchAgricultureGrants_def query_loop_collects encountered_def visited_def)

lemma research_throws:
  assumes "generateGrantQueries sv q ft loc n p = (ev0, Inl e)"
  shows "researchAgricultureGrants sv q ft loc n p = (ev0, Inl e)"
  using assms by (simp add: researchAgricultureGrants_def)

lemma search_in_attempt: "FirecrawlSearch q \<in> set (fst (query_attempt sv p i q))"
  by (simp add: query_attempt_def Let_def split: sum.splits prod.splits)

lemma attempt_in_step: "set (fst (query_attempt sv p i q)) \<subseteq> set (step_events sv p i q)"
proof (cases "query_attempt sv p i q")
  case (Pair ev r)
  then show ?thesis by (cases r) (auto simp: step_events_def)
qed

lemma step_in_loop:
  "j < length qs \<Longrightarrow> set (step_events sv p (i + j) (qs ! j)) \<subseteq> set (loop_events sv p i qs)"
proof (induction qs arbitrary: i j)
  case Nil
  then show ?case by simp
next
  case (Cons q qs)
  show ?case
  proof (cases j)
    case 0
    then show ?thesis by simp
  next
    case (Suc k)
    with Cons.prems have "k < length qs" by simp
    from Cons.IH [OF this, of "Suc i"] Suc show ?thesis by auto
  qed
qed

lemma failure_in_step:
  assumes "query_attempt sv p i q = (ev, Inl e)"
  shows "ConsoleError (query_error_log q) e \<in> set (step_events sv p i q)"
    and "p \<Longrightarrow> Progress (query_failed q e) \<in> set (step_events sv p i q)"
  using assms by (simp_all add: step_events_def emit_def)


lemma pushed_urls_origin:
  assumes "u \<in> set (snd (pushed (query_attempt sv p i q)))"
  shows "\<exists>data ev' r'. search sv i q = Inr data
           \<and> processGrantResults (trimPrompt sv) (extractModel sv i) p q data = (ev', Inr r')
           \<and> u \<in> set (visitedUrls r')"
proof (cases "search sv i q")
  case (Inl e)
  with assms show ?thesis by (simp add: query_attempt_def pushed_def)
next
  case (Inr data)
  obtain ev' res where pg: "processGrantResults (trimPrompt sv) (extractModel sv i) p q data = (ev', res)"
    by (cases "processGrantResults (trimPrompt sv) (extractModel sv i) p q data")
  show ?thesis
  proof (cases res)
    case (Inl e)
    with assms Inr pg show ?thesis
      by (simp add: query_attempt_def pushed_def Let_def split: if_splits)
  next
    case r: (Inr r')
    with assms Inr pg have "u \<in> set (visitedUrls r')"
      by (simp add: query_attempt_def pushed_def Let_def split: if_splits)
    with Inr pg r show ?thesis by blast
  qed
qed

lemma visited_origin:
  assumes "u \<in> set (visited sv p qs)"
  shows "\<exists>j<length qs. u \<in> set (snd (pushed (query_attempt sv p j (qs ! j))))"
proof -
  from assms obtain a where a: "a \<in> set (attempts sv p 0 qs)" and u: "u \<in> set (snd (pushed a))"
    by (auto simp: visited_def)
  from a obtain j where j: "j < length qs" and "a = attempts sv p 0 qs ! j"
    by (auto simp: in_set_conv_nth length_attempts)
  with attempts_nth [OF j, of sv p 0] have "a = query_attempt sv p j (qs ! j)" by simp
  with u j show ?thesis by blast
qed

lemma attempt_in_attempts:
  "j < length qs \<Longrightarrow> query_attempt sv p j (qs ! j) \<in> set (attempts sv p 0 qs)"
  using attempts_nth [of j qs sv p 0] by (metis add_0 length_attempts nth_mem)

lemma concat_succeeded:
  "f ([], []) = [] \<Longrightarrow>
     concat (map (\<lambda>a. f (pushed a)) (filter succeeded as)) = concat (map (\<lambda>a. f (pushed a)) as)"
  by (induction as) (auto simp: succeeded_def pushed_def split: sum.splits)

text \<open>
  C1: (as amended) the result of \<^verbatim>\<open>researchAgricultureGrants\<close> holds exactly one grant
  under every name that was encountered, and it is the one that occurred last in
  encounter order; the names stand in the order of their first occurrence.
  Earlier copies are dropped, not merged.
\<close>

theorem duplicate_names_keep_last:
  assumes "generateGrantQueries sv q ft loc n p = (ev0, Inr qs)"
    and "researchAgricultureGrants sv q ft loc n p = (ev, Inr r)"
    and "g \<in> set (encountered sv p qs)"
  shows "filter (\<lambda>h. name h = name g) (grants r)
           = [last (filter (\<lambda>h. name h = name g) (encountered sv p qs))]
         \<and> map name (grants r) = new_Set (map name (encountered sv p qs))"
proof -
  from assms(2) research_unfold [OF assms(1)]
  have r: "grants r = uniqueGrants (encountered sv p qs)" by auto
  from assms(3) have "name g \<in> name ` set (encountered sv p qs)" by simp
  then show ?thesis
    unfolding r by (simp add: filter_uniqueGrants names_uniqueGrants)
qed

text \<open>
  C4: in every result of \<^verbatim>\<open>researchAgricultureGrants\<close> no two grants share a name,
  \<^verbatim>\<open>visitedUrls\<close> has no duplicates, and every URL in it is in the URL list
  that the extraction of one of the queries returned.
\<close>

theorem research_result_invariants:
  assumes "generateGrantQueries sv q ft loc n p = (ev0, Inr qs)"
    and "researchAgricultureGrants sv q ft loc n p = (ev, Inr r)"
  shows "distinct (map name (grants r)) \<and> distinct (visitedUrls r)
         \<and> (\<forall>u \<in> set (visitedUrls r). \<exists>j<length qs. \<exists>data ev' r'.
               search sv j (qs ! j) = Inr data
               \<and> processGrantResults (trimPrompt sv) (extractModel sv j) p (qs ! j) data = (ev', Inr r')
               \<and> u \<in> set (visitedUrls r'))"
proof -
  from assms(2) research_unfold [OF assms(1)]
  have g: "grants r = uniqueGrants (encountered sv p qs)"
    and v: "visitedUrls r = new_Set (visited sv p qs)" by auto
  have "distinct (map name (grants r))"
    by (simp add: g names_uniqueGrants distinct_new_Set)
  moreover have "distinct (visitedUrls r)"
    by (simp add: v distinct_new_Set)
  moreover have "\<exists>j<length qs. \<exists>data ev' r'.
               search sv j (qs ! j) = Inr data
               \<and> processGrantResults (trimPrompt sv) (extractModel sv j) p (qs ! j) data = (ev', Inr r')
               \<and> u \<in> set (visitedUrls r')" if "u \<in> set (visitedUrls r)" for u
  proof -
    from that have "u \<in> set (visited sv p qs)" by (simp add: v set_new_Set)
    from visited_origin [OF this] obtain j where j: "j < length qs"
      and "u \<in> set (snd (pushed (query_attempt sv p j (qs ! j))))" by blast
    from pushed_urls_origin [OF this(2)] j show ?thesis by blast
  qed
  ultimately show ?thesis by blast
qed

lemma attempt_search_throws:
  "search sv i q = Inl e \<Longrightarrow> snd (query_attempt sv p i q) = Inl e"
  by (simp add: query_attempt_def)

lemma compact_nonempty_data: "compact (map markdown data) \<noteq> [] \<Longrightarrow> 0 < length data"
  by (cases data) simp_all

lemma attempt_extraction_throws:
  assumes "search sv i q = Inr data" and "compact (map markdown data) \<noteq> []"
    and "extractModel sv i (map (\<lambda>content. trimPrompt sv content 25000) (compact (map markdown data))) = Inl e"
  shows "snd (query_attempt sv p i q) = Inl e"
  using assms compact_nonempty_data [OF assms(2)]
  by (simp add: query_attempt_def processGrantResults_def Let_def)

lemma attempt_succeeds:
  assumes "search sv i q = Inr data" and "compact (map markdown data) \<noteq> []"
    and "extractModel sv i (map (\<lambda>content. trimPrompt sv content 25000) (compact (map markdown data))) = Inr gs"
  shows "snd (query_attempt sv p i q) = Inr (gs, non_null (map url data))"
  using assms compact_nonempty_data [OF assms(2)]
  by (simp add: query_attempt_def processGrantResults_def Let_def)

lemma failure_reported:
  assumes "j < length qs" and "snd (query_attempt sv p j (qs ! j)) = Inl (Thrown msg)"
  shows "ConsoleError (''Error running grant query: '' @ qs ! j @ '': '') (Thrown msg)
           \<in> set (loop_events sv p 0 qs)
         \<and> (p \<longrightarrow> Progress (''Error researching grants with '' @ [CHR 0x22] @ qs ! j @ [CHR 0x22]
                                 @ '': '' @ msg) \<in> set (loop_events sv p 0 qs))"
proof -
  obtain ev' where a: "query_attempt sv p j (qs ! j) = (ev', Inl (Thrown msg))"
    using assms(2) by (cases "query_attempt sv p j (qs ! j)") simp
  have l: "query_error_log (qs ! j) = ''Error running grant query: '' @ qs ! j @ '': ''"
    by (simp add: query_error_log_def)
  have f: "query_failed (qs ! j) (Thrown msg)
             = ''Error researching grants with '' @ [CHR 0x22] @ qs ! j @ [CHR 0x22] @ '': '' @ msg"
    by (simp add: query_failed_def dq_def)
  from step_in_loop [OF assms(1), of sv p 0] failure_in_step [OF a]
  show ?thesis unfolding l f by auto
qed

lemma success_kept:
  assumes "j < length qs" and "snd (query_attempt sv p j (qs ! j)) = Inr (gs, us)"
  shows "name ` set gs \<subseteq> name ` set (uniqueGrants (encountered sv p qs))
         \<and> set us \<subseteq> set (new_Set (visited sv p qs))"
proof -
  obtain ev' where "query_attempt sv p j (qs ! j) = (ev', Inr (gs, us))"
    using assms(2) by (cases "query_attempt sv p j (qs ! j)") simp
  with attempt_in_attempts [OF assms(1), of sv p]
  have mem: "(ev', Inr (gs, us)) \<in> set (attempts sv p 0 qs)" by simp
  have "set gs \<subseteq> set (encountered sv p qs)"
    unfolding encountered_def using mem by (force simp: pushed_def)
  moreover have "set us \<subseteq> set (visited sv p qs)"
    unfolding visited_def using mem by (force simp: pushed_def)
  moreover have "name ` set (uniqueGrants (encountered sv p qs)) = name ` set (encountered sv p qs)"
    using names_uniqueGrants [of "encountered sv p qs"]
    by (metis set_map set_new_Set)
  ultimately show ?thesis by (auto simp: set_new_Set)
qed

text \<open>
  C5: once the queries are generated, \<^verbatim>\<open>researchAgricultureGrants\<close> returns a
  result whatever the searches and extractions do.  Every query is searched.
  When the search of a query throws, and when its extraction throws, the error
  is logged with the text \<^verbatim>\<open>Error running grant query: <query>: \<close> and (when a
  progress callback was passed) the progress message
  \<^verbatim>\<open>Error researching grants with "<query>": <error>\<close> is emitted.  The grants'
  names and the URLs of every query whose search and extraction succeed are in
  the result, which is the aggregate of exactly the contributions of the
  queries that did not fail.
\<close>

theorem per_query_failure_not_fatal:
  assumes "generateGrantQueries sv q ft loc n p = (ev0, Inr qs)"
  shows "\<exists>ev r. researchAgricultureGrants sv q ft loc n p = (ev, Inr r)
         \<and> (\<forall>j<length qs. FirecrawlSearch (qs ! j) \<in> set ev)
         \<and> (\<forall>j<length qs. \<forall>msg. search sv j (qs ! j) = Inl (Thrown msg) \<longrightarrow>
               ConsoleError (''Error running grant query: '' @ qs ! j @ '': '') (Thrown msg) \<in> set ev
               \<and> (p \<longrightarrow> Progress (''Error researching grants with '' @ [CHR 0x22] @ qs ! j
                                       @ [CHR 0x22] @ '': '' @ msg) \<in> set ev))
         \<and> (\<forall>j<length qs. \<forall>data msg.
               search sv j (qs ! j) = Inr data \<and> compact (map markdown data) \<noteq> []
               \<and> extractModel sv j (map (\<lambda>content. trimPrompt sv content 25000)
                                        (compact (map markdown data))) = Inl (Thrown msg) \<longrightarrow>
               ConsoleError (''Error running grant query: '' @ qs ! j @ '': '') (Thrown msg) \<in> set ev
               \<and> (p \<longrightarrow> Progress (''Error researching grants with '' @ [CHR 0x22] @ qs ! j
                                       @ [CHR 0x22] @ '': '' @ msg) \<in> set ev))
         \<and> (\<forall>j<length qs. \<forall>data gs.
               search sv j (qs ! j) = Inr data \<and> compact (map markdown data) \<noteq> []
               \<and> extractModel sv j (map (\<lambda>content. trimPrompt sv content 25000)
                                        (compact (map markdown data))) = Inr gs \<longrightarrow>
               name ` set gs \<subseteq> name ` set (grants r)
               \<and> set (non_null (map url data)) \<subseteq> set (visitedUrls r))
         \<and> grants r = uniqueGrants
              (concat (map (\<lambda>a. fst (pushed a)) (filter succeeded (attempts sv p 0 qs))))
         \<and> visitedUrls r = new_Set
              (concat (map (\<lambda>a. snd (pushed a)) (filter succeeded (attempts sv p 0 qs))))"
proof -
  let ?ev = "ev0 @ loop_events sv p 0 qs"
  let ?r = "\<lparr>grants = uniqueGrants (encountered sv p qs), visitedUrls = new_Set (visited sv p qs)\<rparr>"
  have res: "researchAgricultureGrants sv q ft loc n p = (?ev, Inr ?r)"
    by (rule research_unfold [OF assms])
  have searched: "\<forall>j<length qs. FirecrawlSearch (qs ! j) \<in> set ?ev"
  proof (intro allI impI)
    fix j assume j: "j < length qs"
    from step_in_loop [OF j, of sv p 0] attempt_in_step [of sv p j "qs ! j"]
      search_in_attempt [of "qs ! j" sv p j]
    show "FirecrawlSearch (qs ! j) \<in> set ?ev" by auto
  qed
  have search_failed: "\<forall>j<length qs. \<forall>msg. search sv j (qs ! j) = Inl (Thrown msg) \<longrightarrow>
               ConsoleError (''Error running grant query: '' @ qs ! j @ '': '') (Thrown msg) \<in> set ?ev
               \<and> (p \<longrightarrow> Progress (''Error researching grants with '' @ [CHR 0x22] @ qs ! j
                                       @ [CHR 0x22] @ '': '' @ msg) \<in> set ?ev)"
  proof (intro allI impI)
    fix j msg assume j: "j < length qs" and s: "search sv j (qs ! j) = Inl (Thrown msg)"
    from failure_reported [OF j attempt_search_throws [OF s]]
    show "ConsoleError (''Error running grant query: '' @ qs ! j @ '': '') (Thrown msg) \<in> set ?ev
               \<and> (p \<longrightarrow> Progress (''Error researching grants with '' @ [CHR 0x22] @ qs ! j
                                       @ [CHR 0x22] @ '': '' @ msg) \<in> set ?ev)"
      by simp
  qed
  have extraction_failed: "\<forall>j<length qs. \<forall>data msg.
               search sv j (qs ! j) = Inr data \<and> compact (map markdown data) \<noteq> []
               \<and> extractModel sv j (map (\<lambda>content. trimPrompt sv content 25000)
                                        (compact (map markdown data))) = Inl (Thrown msg) \<longrightarrow>
               ConsoleError (''Error running grant query: '' @ qs ! j @ '': '') (Thrown msg) \<in> set ?ev
               \<and> (p \<longrightarrow> Progress (''Error researching grants with '' @ [CHR 0x22] @ qs ! j
                                       @ [CHR 0x22] @ '': '' @ msg) \<in> set ?ev)"
  proof (intro allI impI, elim conjE)
    fix j data msg assume j: "j < length qs" and s: "search sv j (qs ! j) = Inr data"
      and c: "compact (map markdown data) \<noteq> []"
      and x: "extractModel sv j (map (\<lambda>content. trimPrompt sv content 25000)
                                        (compact (map markdown data))) = Inl (Thrown msg)"
    from failure_reported [OF j attempt_extraction_throws [OF s c x]]
    show "ConsoleError (''Error running grant query: '' @ qs ! j @ '': '') (Thrown msg) \<in> set ?ev
               \<and> (p \<longrightarrow> Progress (''Error researching grants with '' @ [CHR 0x22] @ qs ! j
                                       @ [CHR 0x22] @ '': '' @ msg) \<in> set ?ev)"
      by simp
  qed
  have kept: "\<forall>j<length qs. \<forall>data gs.
               search sv j (qs ! j) = Inr data \<and> compact (map markdown data) \<noteq> []
               \<and> extractModel sv j (map (\<lambda>content. trimPrompt sv content 25000)
                                        (compact (map markdown data))) = Inr gs \<longrightarrow>
               name ` set gs \<subseteq> name ` set (grants ?r)
               \<and> set (non_null (map url data)) \<subseteq> set (visitedUrls ?r)"
  proof (intro allI impI, elim conjE)
    fix j data gs assume j: "j < length qs" and s: "search sv j (qs ! j) = Inr data"
      and c: "compact (map markdown data) \<noteq> []"
      and x: "extractModel sv j (map (\<lambda>content. trimPrompt sv content 25000)
                                        (compact (map markdown data))) = Inr gs"
    from success_kept [OF j attempt_succeeds [OF s c x]]
    show "name ` set gs \<subseteq> name ` set (grants ?r)
               \<and> set (non_null (map url data)) \<subseteq> set (visitedUrls ?r)"
      by simp
  qed
  have g: "grants ?r = uniqueGrants
              (concat (map (\<lambda>a. fst (pushed a)) (filter succeeded (attempts sv p 0 qs))))"
    by (simp add: encountered_def concat_succeeded)
  have v: "visitedUrls ?r = new_Set
              (concat (map (\<lambda>a. snd (pushed a)) (filter succeeded (attempts sv p 0 qs))))"
    by (simp add: visited_def concat_succeeded)
  show ?thesis
    by (intro exI conjI) (rule res, rule searched, rule search_failed, rule extraction_failed,
      rule kept, rule g, rule v)
qed

subsection \<open>Truncation and extraction\<close>

lemma slice_nonneg: "0 \<le> n \<Longrightarrow> slice 0 n xs = take (nat n) xs"
  by (simp add: slice_def Let_def min_def)

lemma slice_negative: "n < 0 \<Longrightarrow> slice 0 n xs = take (length xs - nat (- n)) xs"
proof -
  assume "n < 0"
  then have "nat (max (int (length xs) + n) 0) = length xs - nat (- n)"
    by (simp add: max_def) linarith
  with \<open>n < 0\<close> show ?thesis by (simp add: slice_def Let_def)
qed

lemma length_slice_less:
  "xs \<noteq> [] \<Longrightarrow> n < int (length xs) \<Longrightarrow> length (slice 0 n xs) < length xs"
  by (cases "0 \<le> n") (auto simp: slice_nonneg slice_negative)

lemma compact_empty: "compact ms = [] \<longleftrightarrow> (\<forall>m \<in> set ms. m = None \<or> m = Some [])"
  by (induction ms rule: compact.induct) auto

text \<open>
  C6: for every model response and every count \<open>numQueries \<ge> 0\<close>,
  \<^verbatim>\<open>generateGrantQueries\<close> returns at most \<open>numQueries\<close> query strings: the
  first \<open>numQueries\<close> of the proposed queries in the model's order, and exactly
  \<open>numQueries\<close> of them when the model proposes more.
\<close>

theorem queries_capped_at_numQueries:
  assumes "queriesModel sv q ft loc n = Inr proposed" and "0 \<le> n"
  shows "\<exists>returned. snd (generateGrantQueries sv q ft loc n p) = Inr returned
           \<and> int (length returned) \<le> n
           \<and> returned = map query (take (nat n) proposed)
           \<and> (n < int (length proposed) \<longrightarrow> int (length returned) = n)"
  using assms by (auto simp: generateGrantQueries_def slice_nonneg)

text \<open>
  C7: when every page of a search result lacks markdown text (it is absent or
  empty), \<^verbatim>\<open>processGrantResults\<close> returns an empty list of grants, and the only
  thing it does is the optional progress notification: the model is not called.
\<close>

theorem no_content_no_model_call:
  assumes "\<forall>item \<in> set data. markdown item = None \<or> markdown item = Some []"
  shows "\<exists>ev r. processGrantResults trim model p serpQuery data = (ev, Inr r)
             \<and> grants r = []
             \<and> ev = emit p (ran serpQuery 0)
             \<and> GenerateObject GrantExtraction \<notin> set ev"
proof -
  from assms have "compact (map markdown data) = []"
    by (simp add: compact_empty)
  then show ?thesis
    by (simp add: processGrantResults_def emit_def)
qed

lemma non_null_mem: "x \<in> set (non_null ms) \<longleftrightarrow> Some x \<in> set ms"
  by (induction ms rule: non_null.induct) auto

text \<open>
  C9: when no page has text, \<^verbatim>\<open>processGrantResults\<close> returns an empty
  \<^verbatim>\<open>visitedUrls\<close> as well, and the iteration of the loop appends nothing to the
  aggregate; when some page has text, \<^verbatim>\<open>visitedUrls\<close> holds the URL of every
  retrieved page that has one, with or without text.
\<close>

theorem no_content_drops_urls:
  "((\<forall>item \<in> set data. markdown item = None \<or> markdown item = Some []) \<longrightarrow>
      snd (processGrantResults trim model p serpQuery data) = Inr \<lparr>grants = [], visitedUrls = []\<rparr>
      \<and> (search sv i serpQuery = Inr data \<longrightarrow> pushed (query_attempt sv p i serpQuery) = ([], [])))
   \<and> (\<not> (\<forall>item \<in> set data. markdown item = None \<or> markdown item = Some []) \<longrightarrow>
      (\<forall>r. snd (processGrantResults trim model p serpQuery data) = Inr r \<longrightarrow>
         visitedUrls r = non_null (map url data)
         \<and> (\<forall>item \<in> set data. \<forall>u. url item = Some u \<longrightarrow> u \<in> set (visitedUrls r))))"
proof (cases "compact (map markdown data) = []")
  case True
  have short: "processGrantResults trim' model' p serpQuery data
                 = (emit p (ran serpQuery 0), Inr \<lparr>grants = [], visitedUrls = []\<rparr>)" for trim' model'
    using True by (simp add: processGrantResults_def)
  have a: "snd (processGrantResults trim model p serpQuery data) = Inr \<lparr>grants = [], visitedUrls = []\<rparr>"
    by (simp add: short)
  have b: "pushed (query_attempt sv p i serpQuery) = ([], [])" if "search sv i serpQuery = Inr data"
    using that by (simp add: query_attempt_def Let_def short pushed_def)
  from True have "\<forall>item \<in> set data. markdown item = None \<or> markdown item = Some []"
    by (simp add: compact_empty)
  with a b show ?thesis by simp
next
  case False
  then have some: "\<not> (\<forall>item \<in> set data. markdown item = None \<or> markdown item = Some [])"
    by (simp add: compact_empty)
  have c: "visitedUrls r = non_null (map url data)"
    if "snd (processGrantResults trim model p serpQuery data) = Inr r" for r
    using that False by (auto simp: processGrantResults_def Let_def split: sum.splits)
  have d: "u \<in> set (non_null (map url data))" if "item \<in> set data" and "url item = Some u" for item u
    using that by (force simp: non_null_mem)
  have "\<forall>r. snd (processGrantResults trim model p serpQuery data) = Inr r \<longrightarrow>
         visitedUrls r = non_null (map url data)
         \<and> (\<forall>item \<in> set data. \<forall>u. url item = Some u \<longrightarrow> u \<in> set (visitedUrls r))"
    using c d by simp
  with some show ?thesis by (simp only: simp_thms)
qed

subsection \<open>The report\<close>


subsection \<open>Delivery of events to the stream\<close>

lemma deliver_open:
  "\<not> closed t \<Longrightarrow>
     foldl deliver t ev =
       t\<lparr>chunks := chunks t @ concat (map (\<lambda>e. case e of Progress u \<Rightarrow> [ProgressFrame u] | _ \<Rightarrow> []) ev),
         journal := journal t @ filter (\<lambda>e. case e of Progress u \<Rightarrow> False | _ \<Rightarrow> True) ev\<rparr>"
proof (induction ev arbitrary: t)
  case Nil
  then show ?case by simp
next
  case (Cons e ev)
  then show ?case
    by (cases e) (simp_all add: onProgress_def writer_write_def)
qed

subsection \<open>The paths of the task\<close>

lemma deliver_new:
  "foldl deliver new_task ev =
     \<lparr>chunks = progress_frames ev, closed = False, closeCalls = 0, reportCalls = 0,
      journal = recorded ev\<rparr>"
  by (simp add: deliver_open new_task_def progress_frames_def recorded_def)

lemma zero_grants_path:
  assumes "researchAgricultureGrants sv q ft loc n True = (ev, Inr r)" and "grants r = []"
  shows "pipeline_task sv q ft loc n =
           (\<lparr>chunks = progress_frames ev @ [ProgressFrame no_grants_hint, DoneFrame no_grants_report],
             closed = True, closeCalls = 2, reportCalls = 0, journal = recorded ev\<rparr>,
            Some writer_closed)"
  using assms
  by (simp add: pipeline_task_def pipeline_try_def deliver_new onProgress_def writer_write_def
      writer_close_def)

lemma research_throws_path:
  assumes "researchAgricultureGrants sv q ft loc n True = (ev, Inl e)"
  shows "pipeline_task sv q ft loc n =
           (\<lparr>chunks = progress_frames ev @ [ErrorFrame (''Error in grant research: '' @ render e)],
             closed = True, closeCalls = 1, reportCalls = 0,
             journal = recorded ev
               @ [ConsoleError ''[GRANT RESEARCH ROUTE] Error in research process:'' e]\<rparr>,
            None)"
  using assms
  by (simp add: pipeline_task_def pipeline_try_def pipeline_catch_def deliver_new
      writer_write_def writer_close_def)

lemma report_path_closes_once:
  assumes "researchAgricultureGrants sv q ft loc n True = (ev, Inr r)" and "grants r \<noteq> []"
  shows "closeCalls (fst (pipeline_task sv q ft loc n)) = 1
         \<and> snd (pipeline_task sv q ft loc n) = None
         \<and> reportCalls (fst (pipeline_task sv q ft loc n)) = 1"
proof -
  obtain ev2 rep where w: "writeGrantReport sv q ft loc (grants r) (visitedUrls r) = (ev2, rep)"
    by (cases "writeGrantReport sv q ft loc (grants r) (visitedUrls r)")
  show ?thesis
    using assms w
    by (cases rep)
      (simp_all add: pipeline_task_def pipeline_try_def pipeline_catch_def deliver_new deliver_open
        onProgress_def writer_write_def writer_close_def)
qed

text \<open>
  C3: when the research returns no grant, the last frame the task writes is the
  done event with the report \<^verbatim>\<open>No grants found that match your criteria.\<close>, and
  \<^verbatim>\<open>writeGrantReport\<close> is not called.
\<close>

theorem zero_grants_fixed_report:
  assumes "researchAgricultureGrants sv q ft loc n True = (ev, Inr r)" and "grants r = []"
  shows "\<exists>t rejected. pipeline_task sv q ft loc n = (t, rejected)
           \<and> reportCalls t = 0
           \<and> chunks t = progress_frames ev
                @ [ProgressFrame no_grants_hint, DoneFrame ''No grants found that match your criteria.'']
           \<and> last (chunks t) = DoneFrame ''No grants found that match your criteria.''"
  using zero_grants_path [OF assms] by (simp add: no_grants_report_def)

lemma digit_value: "d < 10 \<Longrightarrow> of_char (digit d) - 48 = d"
proof -
  assume "d < 10"
  then consider "d = 0" | "d = 1" | "d = 2" | "d = 3" | "d = 4" | "d = 5" | "d = 6" | "d = 7"
    | "d = 8" | "d = 9"
    by atomize_elim arith
  then show ?thesis
    by cases (simp_all add: digit_def)
qed

lemma read_nat_snoc: "read_nat (s @ [c]) = 10 * read_nat s + (of_char c - 48)"
  by (simp add: read_nat_def)

lemma read_show_nat: "read_nat (show_nat n) = n"
proof (induction n rule: show_nat.induct)
  case (1 n)
  show ?case
  proof (cases "n < 10")
    case True
    then show ?thesis
      by (simp add: show_nat.simps [of n] read_nat_def digit_value)
  next
    case False
    with 1 have "read_nat (show_nat (n div 10)) = n div 10" by simp
    with False show ?thesis
      by (simp add: show_nat.simps [of n] read_nat_snoc digit_value)
  qed
qed

lemma digit_is_digit: "d < 10 \<Longrightarrow> digit d \<in> set ''0123456789''"
proof -
  assume "d < 10"
  then consider "d = 0" | "d = 1" | "d = 2" | "d = 3" | "d = 4" | "d = 5" | "d = 6" | "d = 7"
    | "d = 8" | "d = 9"
    by atomize_elim arith
  then show ?thesis
    by cases (simp_all add: digit_def)
qed

lemma show_nat_digits: "show_nat n \<noteq> [] \<and> set (show_nat n) \<subseteq> set ''0123456789''"
proof (induction n rule: show_nat.induct)
  case (1 n)
  show ?case
  proof (cases "n < 10")
    case True
    with digit_is_digit [OF True] show ?thesis
      by (simp add: show_nat.simps [of n])
  next
    case False
    have "n mod 10 < 10" by simp
    from digit_is_digit [OF this] 1 False show ?thesis
      by (simp add: show_nat.simps [of n])
  qed
qed

text \<open>
  C10: the last progress notification of \<^verbatim>\<open>generateGrantQueries\<close> is the text
  \<^verbatim>\<open>Created N grant-related SERP queries\<close>, a line break and the texts of all
  the queries the model proposed, joined by commas, where \<open>N\<close> is the decimal
  numeral of the number of proposed queries, before the truncation; when the
  model proposes more than \<open>numQueries\<close> queries, that number is greater than
  the number of queries returned.
\<close>

theorem created_message_counts_all_proposed:
  assumes "queriesModel sv q ft loc n = Inr proposed"
  shows "\<exists>count. last (fst (generateGrantQueries sv q ft loc n True))
             = Progress (''Created '' @ count @ '' grant-related SERP queries'' @ [CHR 0x0A]
                           @ join '', '' (map query proposed))
           \<and> count \<noteq> [] \<and> set count \<subseteq> set ''0123456789''
           \<and> read_nat count = length proposed
           \<and> snd (generateGrantQueries sv q ft loc n True) = Inr (map query (slice 0 n proposed))
           \<and> (proposed \<noteq> [] \<and> n < int (length proposed) \<longrightarrow>
                 length (map query (slice 0 n proposed)) < read_nat count)"
proof (intro exI conjI)
  show "last (fst (generateGrantQueries sv q ft loc n True))
             = Progress (''Created '' @ show_nat (length proposed) @ '' grant-related SERP queries''
                           @ [CHR 0x0A] @ join '', '' (map query proposed))"
    using assms by (simp add: generateGrantQueries_def emit_def created_def nl_def)
  show "show_nat (length proposed) \<noteq> []"
    using show_nat_digits by blast
  show "set (show_nat (length proposed)) \<subseteq> set ''0123456789''"
    using show_nat_digits by blast
  show "read_nat (show_nat (length proposed)) = length proposed"
    by (rule read_show_nat)
  show "snd (generateGrantQueries sv q ft loc n True) = Inr (map query (slice 0 n proposed))"
    using assms by (simp add: generateGrantQueries_def)
  show "proposed \<noteq> [] \<and> n < int (length proposed) \<longrightarrow>
                 length (map query (slice 0 n proposed)) < read_nat (show_nat (length proposed))"
    by (simp add: read_show_nat length_slice_less)
qed

subsection \<open>The sample request, evaluated\<close>

lemma sample_proposed:
  "queriesModel sample_services q ft loc n =
     Inr [\<lparr>query = ''q0'', targetGoal = ''federal''\<rparr>,
          \<lparr>query = ''q1'', targetGoal = ''state''\<rparr>,
          \<lparr>query = ''q2'', targetGoal = ''rural''\<rparr>]"
  by (simp add: sample_services_def)

lemma barren_proposed:
  "queriesModel barren_services q ft loc n =
     Inr [\<lparr>query = ''q0'', targetGoal = ''federal''\<rparr>,
          \<lparr>query = ''q1'', targetGoal = ''state''\<rparr>,
          \<lparr>query = ''q2'', targetGoal = ''rural''\<rparr>]"
  by (simp add: barren_services_def sample_services_def)

lemma sample_queries:
  "generateGrantQueries sample_services q ft loc 3 p =
     (fst (generateGrantQueries sample_services q ft loc 3 p), Inr [''q0'', ''q1'', ''q2''])"
  by (simp add: generateGrantQueries_def sample_proposed slice_def)

lemma barren_queries:
  "generateGrantQueries barren_services q ft loc 3 p =
     (fst (generateGrantQueries barren_services q ft loc 3 p), Inr [''q0'', ''q1'', ''q2''])"
  by (simp add: generateGrantQueries_def barren_proposed slice_def)

lemma sample_attempt_0:
  "snd (query_attempt sample_services p 0 ''q0'') =
     Inr ([sample_grant ''VAPG'' ''first''], [''https://a.example'', ''https://b.example''])"
  by (simp add: query_attempt_def processGrantResults_def sample_services_def sample_pages_def)

lemma sample_attempt_1:
  "query_attempt sample_services p (Suc 0) ''q1'' =
     (emit p (researching ''q1'') @ [FirecrawlSearch ''q1''], Inl (Thrown ''Error: network''))"
  by (simp add: query_attempt_def sample_services_def)

lemma sample_attempt_2:
  "snd (query_attempt sample_services p (Suc (Suc 0)) ''q2'') =
     Inr ([sample_grant ''VAPG'' ''second'', sample_grant ''EQIP'' ''third''],
          [''https://a.example'', ''https://b.example''])"
  by (simp add: query_attempt_def processGrantResults_def sample_services_def sample_pages_def)

lemma sample_encountered:
  "encountered sample_services p [''q0'', ''q1'', ''q2''] =
     [sample_grant ''VAPG'' ''first'', sample_grant ''VAPG'' ''second'',
      sample_grant ''EQIP'' ''third'']"
  by (simp add: encountered_def pushed_def sample_attempt_0 sample_attempt_1 sample_attempt_2)

lemma sample_visited:
  "visited sample_services p [''q0'', ''q1'', ''q2''] =
     [''https://a.example'', ''https://b.example'', ''https://a.example'', ''https://b.example'']"
  by (simp add: visited_def pushed_def sample_attempt_0 sample_attempt_1 sample_attempt_2)

lemma sample_unique:
  "uniqueGrants [sample_grant ''VAPG'' ''first'', sample_grant ''VAPG'' ''second'',
      sample_grant ''EQIP'' ''third''] =
     [sample_grant ''VAPG'' ''second'', sample_grant ''EQIP'' ''third'']"
  by (simp add: uniqueGrants_def new_Map_def map_values_def sample_grant_def)

lemma sample_research:
  "researchAgricultureGrants sample_services q ft loc 3 p =
     (fst (researchAgricultureGrants sample_services q ft loc 3 p),
      Inr \<lparr>grants = [sample_grant ''VAPG'' ''second'', sample_grant ''EQIP'' ''third''],
           visitedUrls = [''https://a.example'', ''https://b.example'']\<rparr>)"
  by (simp add: research_unfold [OF sample_queries] sample_encountered sample_visited sample_unique
      new_Set_def set_add_def)

lemma barren_attempt:
  "snd (query_attempt barren_services p i serpQuery) = Inr ([], [])"
  by (simp add: query_attempt_def processGrantResults_def barren_services_def barren_pages_def
      sample_services_def)

lemma barren_research:
  "researchAgricultureGrants barren_services q ft loc 3 p =
     (fst (researchAgricultureGrants barren_services q ft loc 3 p),
      Inr \<lparr>grants = [], visitedUrls = []\<rparr>)"
  by (simp add: research_unfold [OF barren_queries] encountered_def visited_def pushed_def
      barren_attempt uniqueGrants_def new_Map_def map_values_def new_Set_def)

lemma failing_proposed:
  "queriesModel failing_services q ft loc n =
     Inr [\<lparr>query = ''q0'', targetGoal = ''federal''\<rparr>,
          \<lparr>query = ''q1'', targetGoal = ''state''\<rparr>,
          \<lparr>query = ''q2'', targetGoal = ''rural''\<rparr>]"
  by (simp add: failing_services_def sample_services_def)

lemma failing_queries:
  "generateGrantQueries failing_services q ft loc 3 p =
     (fst (generateGrantQueries failing_services q ft loc 3 p), Inr [''q0'', ''q1'', ''q2''])"
  by (simp add: generateGrantQueries_def failing_proposed slice_def)

lemma failing_attempt_0:
  "snd (query_attempt failing_services p 0 ''q0'') = Inl (Thrown ''Error: timeout'')"
  by (simp add: query_attempt_def processGrantResults_def failing_services_def sample_services_def
      sample_pages_def)

lemma failing_attempt_1:
  "snd (query_attempt failing_services p (Suc 0) ''q1'') = Inl (Thrown ''Error: network'')"
  by (simp add: query_attempt_def failing_services_def sample_services_def)

lemma failing_attempt_2:
  "snd (query_attempt failing_services p (Suc (Suc 0)) ''q2'') =
     Inr ([sample_grant ''VAPG'' ''second'', sample_grant ''EQIP'' ''third''],
          [''https://a.example'', ''https://b.example''])"
  by (simp add: query_attempt_def processGrantResults_def failing_services_def sample_services_def
      sample_pages_def)

lemma failing_research:
  "researchAgricultureGrants failing_services q ft loc 3 p =
     (fst (researchAgricultureGrants failing_services q ft loc 3 p),
      Inr \<lparr>grants = [sample_grant ''VAPG'' ''second'', sample_grant ''EQIP'' ''third''],
           visitedUrls = [''https://a.example'', ''https://b.example'']\<rparr>)"
  by (simp add: research_unfold [OF failing_queries] encountered_def visited_def pushed_def
      failing_attempt_0 failing_attempt_1 failing_attempt_2
      uniqueGrants_def new_Map_def map_values_def sample_grant_def new_Set_def set_add_def)

theorem first_seen_kept_counterexample:
  "encountered sample_services False [''q0'', ''q1'', ''q2'']
     = [sample_grant ''VAPG'' ''first'', sample_grant ''VAPG'' ''second'',
        sample_grant ''EQIP'' ''third'']
   \<and> snd (researchAgricultureGrants sample_services ''farm'' None None 3 False)
     = Inr \<lparr>grants = [sample_grant ''VAPG'' ''second'', sample_grant ''EQIP'' ''third''],
            visitedUrls = [''https://a.example'', ''https://b.example'']\<rparr>
   \<and> sample_grant ''VAPG'' ''first'' \<noteq> sample_grant ''VAPG'' ''second''"
proof -
  have "sample_grant ''VAPG'' ''first'' \<noteq> sample_grant ''VAPG'' ''second''"
    by (simp add: sample_grant_def)
  moreover have "snd (researchAgricultureGrants sample_services ''farm'' None None 3 False)
     = Inr \<lparr>grants = [sample_grant ''VAPG'' ''second'', sample_grant ''EQIP'' ''third''],
            visitedUrls = [''https://a.example'', ''https://b.example'']\<rparr>"
    using sample_research [of "''farm''" None None False] by (metis snd_conv)
  ultimately show ?thesis
    using sample_encountered [of False] by blast
qed

theorem duplicate_names_keep_last_witness:
  "snd (generateGrantQueries sample_services ''farm'' None None 3 False)
     = Inr [''q0'', ''q1'', ''q2'']
   \<and> sample_grant ''VAPG'' ''first'' \<in> set (encountered sample_services False [''q0'', ''q1'', ''q2''])
   \<and> filter (\<lambda>h. name h = ''VAPG'')
        [sample_grant ''VAPG'' ''second'', sample_grant ''EQIP'' ''third'']
       = [sample_grant ''VAPG'' ''second'']
   \<and> map name [sample_grant ''VAPG'' ''second'', sample_grant ''EQIP'' ''third'']
       = new_Set (map name (encountered sample_services False [''q0'', ''q1'', ''q2'']))"
proof -
  have h3: "sample_grant ''VAPG'' ''first'' \<in> set (encountered sample_services False [''q0'', ''q1'', ''q2''])"
    by (simp add: sample_encountered)
  have l: "last (filter (\<lambda>h. name h = ''VAPG'')
             (encountered sample_services False [''q0'', ''q1'', ''q2'']))
           = sample_grant ''VAPG'' ''second''"
    by (simp add: sample_encountered sample_grant_def)
  have n: "name (sample_grant ''VAPG'' ''first'') = ''VAPG''"
    by (simp add: sample_grant_def)
  have q: "snd (generateGrantQueries sample_services ''farm'' None None 3 False)
     = Inr [''q0'', ''q1'', ''q2'']"
    using sample_queries [of "''farm''" None None False] by (metis snd_conv)
  from duplicate_names_keep_last
    [OF sample_queries [of "''farm''" None None False]
        sample_research [of "''farm''" None None False] h3]
  show ?thesis
    using h3 q by (simp only: l n GrantResearchResult.simps simp_thms)
qed

subsection \<open>Instances of the aggregation and of the truncation\<close>

theorem research_result_invariants_witness:
  "snd (generateGrantQueries sample_services ''farm'' None None 3 False) = Inr [''q0'', ''q1'', ''q2'']
   \<and> distinct (map name [sample_grant ''VAPG'' ''second'', sample_grant ''EQIP'' ''third''])
   \<and> distinct [''https://a.example'', ''https://b.example'']
   \<and> (\<exists>j<length [''q0'', ''q1'', ''q2'']. \<exists>data ev' r'.
          search sample_services j ([''q0'', ''q1'', ''q2''] ! j) = Inr data
          \<and> processGrantResults (trimPrompt sample_services) (extractModel sample_services j) False
                ([''q0'', ''q1'', ''q2''] ! j) data = (ev', Inr r')
          \<and> ''https://b.example'' \<in> set (visitedUrls r'))"
proof -
  have q: "snd (generateGrantQueries sample_services ''farm'' None None 3 False)
     = Inr [''q0'', ''q1'', ''q2'']"
    using sample_queries [of "''farm''" None None False] by (metis snd_conv)
  from research_result_invariants
    [OF sample_queries [of "''farm''" None None False]
        sample_research [of "''farm''" None None False]]
  show ?thesis using q by simp
qed

theorem per_query_failure_not_fatal_witness:
  "snd (generateGrantQueries failing_services ''farm'' None None 3 True) = Inr [''q0'', ''q1'', ''q2'']
   \<and> search failing_services 1 ''q1'' = Inl (Thrown ''Error: network'')
   \<and> ConsoleError ''Error running grant query: q1: '' (Thrown ''Error: network'')
        \<in> set (fst (researchAgricultureGrants failing_services ''farm'' None None 3 True))
   \<and> Progress (''Error researching grants with '' @ [CHR 0x22] @ ''q1'' @ [CHR 0x22]
                  @ '': Error: network'')
        \<in> set (fst (researchAgricultureGrants failing_services ''farm'' None None 3 True))
   \<and> search failing_services 0 ''q0'' = Inr sample_pages
   \<and> compact (map markdown sample_pages) = [''page'']
   \<and> extractModel failing_services 0 [''page''] = Inl (Thrown ''Error: timeout'')
   \<and> ConsoleError ''Error running grant query: q0: '' (Thrown ''Error: timeout'')
        \<in> set (fst (researchAgricultureGrants failing_services ''farm'' None None 3 True))
   \<and> Progress (''Error researching grants with '' @ [CHR 0x22] @ ''q0'' @ [CHR 0x22]
                  @ '': Error: timeout'')
        \<in> set (fst (researchAgricultureGrants failing_services ''farm'' None None 3 True))
   \<and> FirecrawlSearch ''q2''
        \<in> set (fst (researchAgricultureGrants failing_services ''farm'' None None 3 True))
   \<and> search failing_services 2 ''q2'' = Inr sample_pages
   \<and> extractModel failing_services 2 [''page'']
        = Inr [sample_grant ''VAPG'' ''second'', sample_grant ''EQIP'' ''third'']
   \<and> snd (researchAgricultureGrants failing_services ''farm'' None None 3 True)
        = Inr \<lparr>grants = [sample_grant ''VAPG'' ''second'', sample_grant ''EQIP'' ''third''],
               visitedUrls = [''https://a.example'', ''https://b.example'']\<rparr>"
proof -
  let ?sv = failing_services
  let ?run = "researchAgricultureGrants ?sv ''farm'' None None 3 True"
  let ?qs = "[''q0'', ''q1'', ''q2'']"
  have q: "snd (generateGrantQueries ?sv ''farm'' None None 3 True) = Inr ?qs"
    using failing_queries [of "''farm''" None None True] by (metis snd_conv)
  have s1: "search ?sv 1 ''q1'' = Inl (Thrown ''Error: network'')"
    and s0: "search ?sv 0 ''q0'' = Inr sample_pages"
    and s2: "search ?sv 2 ''q2'' = Inr sample_pages"
    by (simp_all add: failing_services_def sample_services_def)
  have c: "compact (map markdown sample_pages) = [''page'']"
    by (simp add: sample_pages_def)
  have x0: "extractModel ?sv 0 [''page''] = Inl (Thrown ''Error: timeout'')"
    and x2: "extractModel ?sv 2 [''page'']
        = Inr [sample_grant ''VAPG'' ''second'', sample_grant ''EQIP'' ''third'']"
    by (simp_all add: failing_services_def)
  have t: "trimPrompt ?sv ''page'' 25000 = ''page''"
    by (simp add: failing_services_def sample_services_def)
  from per_query_failure_not_fatal [OF failing_queries [of "''farm''" None None True]]
  obtain ev r where run: "?run = (ev, Inr r)"
    and searched: "\<forall>j<length ?qs. FirecrawlSearch (?qs ! j) \<in> set ev"
    and search_failed: "\<forall>j<length ?qs. \<forall>msg. search ?sv j (?qs ! j) = Inl (Thrown msg) \<longrightarrow>
               ConsoleError (''Error running grant query: '' @ ?qs ! j @ '': '') (Thrown msg) \<in> set ev
               \<and> (True \<longrightarrow> Progress (''Error researching grants with '' @ [CHR 0x22] @ ?qs ! j
                                       @ [CHR 0x22] @ '': '' @ msg) \<in> set ev)"
    and extraction_failed: "\<forall>j<length ?qs. \<forall>data msg.
               search ?sv j (?qs ! j) = Inr data \<and> compact (map markdown data) \<noteq> []
               \<and> extractModel ?sv j (map (\<lambda>content. trimPrompt ?sv content 25000)
                                        (compact (map markdown data))) = Inl (Thrown msg) \<longrightarrow>
               ConsoleError (''Error running grant query: '' @ ?qs ! j @ '': '') (Thrown msg) \<in> set ev
               \<and> (True \<longrightarrow> Progress (''Error researching grants with '' @ [CHR 0x22] @ ?qs ! j
                                       @ [CHR 0x22] @ '': '' @ msg) \<in> set ev)"
    by (elim exE conjE) (rule that; assumption)
  have ev: "ev = fst ?run" using run by simp
  have one: "(1::nat) < length ?qs" and zero: "(0::nat) < length ?qs" and two: "(2::nat) < length ?qs"
    by simp_all
  have s1': "search ?sv 1 (?qs ! 1) = Inl (Thrown ''Error: network'')"
    using s1 by simp
  from search_failed [rule_format, OF one s1']
  have f1: "ConsoleError ''Error running grant query: q1: '' (Thrown ''Error: network'') \<in> set ev
      \<and> Progress (''Error researching grants with '' @ [CHR 0x22] @ ''q1'' @ [CHR 0x22]
                  @ '': Error: network'') \<in> set ev"
    by simp
  have x0': "search ?sv 0 (?qs ! 0) = Inr sample_pages \<and> compact (map markdown sample_pages) \<noteq> []
       \<and> extractModel ?sv 0 (map (\<lambda>content. trimPrompt ?sv content 25000)
                                        (compact (map markdown sample_pages)))
           = Inl (Thrown ''Error: timeout'')"
    using s0 x0 by (simp add: c t)
  from extraction_failed [rule_format, OF zero x0']
  have f0: "ConsoleError ''Error running grant query: q0: '' (Thrown ''Error: timeout'') \<in> set ev
      \<and> Progress (''Error researching grants with '' @ [CHR 0x22] @ ''q0'' @ [CHR 0x22]
                  @ '': Error: timeout'') \<in> set ev"
    by simp
  from searched [rule_format, OF two] have f2: "FirecrawlSearch ''q2'' \<in> set ev"
    by simp
  have res: "snd ?run = Inr \<lparr>grants = [sample_grant ''VAPG'' ''second'', sample_grant ''EQIP'' ''third''],
               visitedUrls = [''https://a.example'', ''https://b.example'']\<rparr>"
    using failing_research [of "''farm''" None None True] by (metis snd_conv)
  from f0 f1 f2 show ?thesis
    unfolding ev using q s0 s1 s2 c x0 x2 res by simp
qed

theorem queries_capped_at_numQueries_witness:
  "queriesModel sample_services ''farm'' None None 2 =
     Inr [\<lparr>query = ''q0'', targetGoal = ''federal''\<rparr>,
          \<lparr>query = ''q1'', targetGoal = ''state''\<rparr>,
          \<lparr>query = ''q2'', targetGoal = ''rural''\<rparr>]
   \<and> (0::int) \<le> 2
   \<and> snd (generateGrantQueries sample_services ''farm'' None None 2 False) = Inr [''q0'', ''q1'']
   \<and> int (length [''q0'', ''q1'']) = 2"
proof -
  have z: "(0::int) \<le> 2" by simp
  from queries_capped_at_numQueries [OF sample_proposed [of "''farm''" None None 2] z, of False]
  obtain returned where
    "snd (generateGrantQueries sample_services ''farm'' None None 2 False) = Inr returned"
    and "returned = map query (take (nat 2)
           [\<lparr>query = ''q0'', targetGoal = ''federal''\<rparr>,
            \<lparr>query = ''q1'', targetGoal = ''state''\<rparr>,
            \<lparr>query = ''q2'', targetGoal = ''rural''\<rparr>])"
    by (elim exE conjE) (rule that; assumption)
  then show ?thesis
    by (simp add: sample_proposed)
qed

subsection \<open>Instances of the extraction, the report and the task\<close>

lemma barren_no_content:
  "\<forall>item \<in> set barren_pages. markdown item = None \<or> markdown item = Some []"
  by (simp add: barren_pages_def)

lemma sample_some_content:
  "\<not> (\<forall>item \<in> set sample_pages. markdown item = None \<or> markdown item = Some [])"
  by (simp add: sample_pages_def)

theorem no_content_no_model_call_witness:
  "map markdown barren_pages = [None, Some []]
   \<and> processGrantResults (trimPrompt sample_services) (extractModel sample_services 0) False ''q0''
         barren_pages
       = ([], Inr \<lparr>grants = [], visitedUrls = []\<rparr>)"
proof -
  from no_content_no_model_call [OF barren_no_content,
      of "trimPrompt sample_services" "extractModel sample_services 0" False "''q0''"]
  obtain ev r where "processGrantResults (trimPrompt sample_services) (extractModel sample_services 0)
        False ''q0'' barren_pages = (ev, Inr r)" and "ev = emit False (ran ''q0'' 0)"
    by (elim exE conjE) (rule that; assumption)
  moreover have "snd (processGrantResults (trimPrompt sample_services) (extractModel sample_services 0)
        False ''q0'' barren_pages) = Inr \<lparr>grants = [], visitedUrls = []\<rparr>"
    by (simp add: processGrantResults_def barren_pages_def)
  moreover have "map markdown barren_pages = [None, Some []]"
    by (simp add: barren_pages_def)
  ultimately show ?thesis by (simp add: emit_def)
qed

theorem no_content_drops_urls_witness:
  "map markdown barren_pages = [None, Some []]
   \<and> url (barren_pages ! 0) = Some ''https://b.example''
   \<and> snd (processGrantResults (trimPrompt sample_services) (extractModel sample_services 0) False
             ''q0'' barren_pages)
       = Inr \<lparr>grants = [], visitedUrls = []\<rparr>
   \<and> search barren_services 0 ''q0'' = Inr barren_pages
   \<and> pushed (query_attempt barren_services False 0 ''q0'') = ([], [])
   \<and> map markdown sample_pages = [Some ''page'', None]
   \<and> markdown (sample_pages ! 1) = None
   \<and> url (sample_pages ! 1) = Some ''https://b.example''
   \<and> snd (processGrantResults (trimPrompt sample_services) (extractModel sample_services 0) False
             ''q0'' sample_pages)
       = Inr \<lparr>grants = [sample_grant ''VAPG'' ''first''],
              visitedUrls = [''https://a.example'', ''https://b.example'']\<rparr>"
proof -
  let ?trim = "trimPrompt sample_services" and ?model = "extractModel sample_services 0"
  have s: "search barren_services 0 ''q0'' = Inr barren_pages"
    by (simp add: barren_services_def)
  have r: "snd (processGrantResults ?trim ?model False ''q0'' sample_pages)
       = Inr \<lparr>grants = [sample_grant ''VAPG'' ''first''],
              visitedUrls = [''https://a.example'', ''https://b.example'']\<rparr>"
    by (simp add: processGrantResults_def sample_pages_def sample_services_def)
  have u: "url (barren_pages ! 0) = Some ''https://b.example''"
    "markdown (sample_pages ! 1) = None" "url (sample_pages ! 1) = Some ''https://b.example''"
    by (simp_all add: barren_pages_def sample_pages_def)
  from no_content_drops_urls [of barren_pages ?trim ?model False "''q0''" barren_services 0]
    barren_no_content s
  have "snd (processGrantResults ?trim ?model False ''q0'' barren_pages)
          = Inr \<lparr>grants = [], visitedUrls = []\<rparr>
        \<and> pushed (query_attempt barren_services False 0 ''q0'') = ([], [])"
    by simp
  moreover
  from no_content_drops_urls [of sample_pages ?trim ?model False "''q0''" sample_services 0]
    sample_some_content r
  have "visitedUrls \<lparr>grants = [sample_grant ''VAPG'' ''first''],
              visitedUrls = [''https://a.example'', ''https://b.example'']\<rparr>
          = non_null (map url sample_pages)"
    by simp
  moreover have "map markdown barren_pages = [None, Some []]"
    and "map markdown sample_pages = [Some ''page'', None]"
    by (simp_all add: barren_pages_def sample_pages_def)
  ultimately show ?thesis
    using s r u by simp
qed



lemma show_nat_3: "show_nat 3 = ''3''"
  by (simp add: show_nat.simps [of 3] digit_def)

theorem created_message_counts_all_proposed_witness:
  "queriesModel sample_services ''farm'' None None 2 =
     Inr [\<lparr>query = ''q0'', targetGoal = ''federal''\<rparr>,
          \<lparr>query = ''q1'', targetGoal = ''state''\<rparr>,
          \<lparr>query = ''q2'', targetGoal = ''rural''\<rparr>]
   \<and> last (fst (generateGrantQueries sample_services ''farm'' None None 2 True))
       = Progress (''Created 3 grant-related SERP queries'' @ [CHR 0x0A] @ ''q0, q1, q2'')
   \<and> read_nat ''3'' = 3
   \<and> snd (generateGrantQueries sample_services ''farm'' None None 2 True) = Inr [''q0'', ''q1'']
   \<and> length [''q0'', ''q1''] < read_nat ''3''"
proof -
  let ?gen = "generateGrantQueries sample_services ''farm'' None None 2 True"
  let ?proposed = "[\<lparr>query = ''q0'', targetGoal = ''federal''\<rparr>,
          \<lparr>query = ''q1'', targetGoal = ''state''\<rparr>,
          \<lparr>query = ''q2'', targetGoal = ''rural''\<rparr>]"
  from created_message_counts_all_proposed [OF sample_proposed [of "''farm''" None None 2]]
  obtain count where
    l: "last (fst ?gen) = Progress (''Created '' @ count @ '' grant-related SERP queries''
           @ [CHR 0x0A] @ join '', '' (map query ?proposed))"
    and r: "snd ?gen = Inr (map query (slice 0 2 ?proposed))"
    by (elim exE conjE) (rule that; assumption)
  have m: "last (fst ?gen) = Progress (''Created '' @ show_nat 3 @ '' grant-related SERP queries''
           @ [CHR 0x0A] @ ''q0, q1, q2'')"
    by (simp add: generateGrantQueries_def sample_proposed emit_def created_def nl_def
        numeral_3_eq_3 [symmetric])
  from l m have "count = ''3''"
    by (simp add: show_nat_3)
  with l r show ?thesis
    by (simp add: sample_proposed slice_def read_nat_def)
qed

theorem zero_grants_fixed_report_witness:
  "snd (researchAgricultureGrants barren_services ''farm'' None None 3 True)
     = Inr \<lparr>grants = [], visitedUrls = []\<rparr>
   \<and> reportCalls (fst (pipeline_task barren_services ''farm'' None None 3)) = 0
   \<and> last (chunks (fst (pipeline_task barren_services ''farm'' None None 3)))
       = DoneFrame ''No grants found that match your criteria.''"
proof -
  have g: "grants \<lparr>grants = [], visitedUrls = []\<rparr> = []" by simp
  from zero_grants_fixed_report [OF barren_research [of "''farm''" None None True] g]
  obtain t rejected where "pipeline_task barren_services ''farm'' None None 3 = (t, rejected)"
    and "reportCalls t = 0"
    and "last (chunks t) = DoneFrame ''No grants found that match your criteria.''"
    by (elim exE conjE) (rule that; assumption)
  moreover have "snd (researchAgricultureGrants barren_services ''farm'' None None 3 True)
     = Inr \<lparr>grants = [], visitedUrls = []\<rparr>"
    using barren_research [of "''farm''" None None True] by (metis snd_conv)
  ultimately show ?thesis by simp
qed

text \<open>
  C2: on the zero-grants path \<^verbatim>\<open>writer.close()\<close> is called twice: once in
  the \<^verbatim>\<open>try\<close> block before the \<^verbatim>\<open>return\<close>, and again in the \<^verbatim>\<open>finally\<close> block,
  where the call is rejected because the writer is closed already.  Here for a
  request all of whose pages lack text.
\<close>

theorem zero_grants_closes_twice:
  "snd (researchAgricultureGrants barren_services ''farm'' None None 3 True)
     = Inr \<lparr>grants = [], visitedUrls = []\<rparr>
   \<and> closeCalls (fst (pipeline_task barren_services ''farm'' None None 3)) = 2
   \<and> snd (pipeline_task barren_services ''farm'' None None 3) = Some writer_closed"
proof -
  have g: "grants \<lparr>grants = [], visitedUrls = []\<rparr> = []" by simp
  have "snd (researchAgricultureGrants barren_services ''farm'' None None 3 True)
     = Inr \<lparr>grants = [], visitedUrls = []\<rparr>"
    using barren_research [of "''farm''" None None True] by (metis snd_conv)
  then show ?thesis
    by (simp add: zero_grants_path [OF barren_research [of "''farm''" None None True] g])
qed

end
